theory Spec2Isabelle
  imports Main "HOL-Library.Word"
begin

section \<open>Face-swap pipeline of face\_swap.py\<close>

text \<open>
  The module glues together calls into OpenCV, dlib and numpy. The embedding keeps the
  code of the module itself (control flow, indexing, slicing, the loops, every raise)
  and takes each library routine as a parameter: a field of a record of functions.
  A library routine that can raise returns a sum, \<open>Inl\<close> carrying the exception.
  Theorems quantify over these records, so they hold for every behaviour of the
  libraries.
\<close>

subsection \<open>Data\<close>

datatype error = ValueError | IndexError | FileNotFoundError | LibError

type_synonym point = "int \<times> int"

text \<open>A rectangle as OpenCV returns it: \<open>(x, y, w, h)\<close>.\<close>

type_synonym rect = "int \<times> int \<times> int \<times> int"

type_synonym pixel = "8 word \<times> 8 word \<times> 8 word"

text \<open>
  A colour image of dtype uint8 and shape \<open>(height, width, 3)\<close>: the list of its rows.
\<close>

type_synonym image = "pixel list list"

definition height :: "image \<Rightarrow> nat" where
  "height img = length img"

definition width :: "image \<Rightarrow> nat" where
  "width img = (case img of [] \<Rightarrow> 0 | r # _ \<Rightarrow> length r)"

subsection \<open>detect\_landmarks\<close>

text \<open>
  \<open>detect_landmarks\<close> accepts any numpy array, so its argument is described by dtype and
  shape; the element data is of a type \<open>'p\<close> that only library routines look into.
  Python's \<open>None\<close> is \<open>None\<close>; the \<open>isinstance\<close> test is excluded by the type.
\<close>

datatype dtype = UInt8 | OtherDtype

record 'p ndarray =
  nd_dtype :: dtype
  nd_shape :: "nat list"
  nd_data :: 'p

text \<open>
  The library routines \<open>detect_landmarks\<close> calls: \<open>image.max() <= 1.0\<close>,
  \<open>(image * 255).astype(np.uint8)\<close>, \<open>image.astype(np.uint8)\<close>, \<open>cv2.cvtColor\<close> to
  grey, \<open>os.path.exists\<close> of the predictor file, \<open>dlib.shape_predictor\<close> (loading the
  file may raise; the loaded predictor maps a grey image and a face rectangle to the
  landmark points) and the frontal face detector (called with one upsampling).
  The first four are called before the \<open>try\<close> block, and each of them can raise:
  \<open>max\<close> of an array without elements is a \<open>ValueError\<close>, and \<open>cv2.cvtColor\<close> of
  an array without elements is a \<open>cv2.error\<close>.
\<close>

record 'p vision =
  max_le_one :: "'p \<Rightarrow> error + bool"
  scale_to_uint8 :: "'p \<Rightarrow> error + 'p"
  astype_uint8 :: "'p \<Rightarrow> error + 'p"
  cvt_bgr2gray :: "'p \<Rightarrow> error + 'p"
  predictor_file_exists :: bool
  shape_predictor :: "error + ('p ndarray \<Rightarrow> rect \<Rightarrow> error + point list)"
  detector :: "'p ndarray \<Rightarrow> nat \<Rightarrow> error + rect list"

text \<open>
  Lines 98-102: the local variable is rebound to a uint8 copy; an exception of
  \<open>max\<close> or of a conversion goes to the caller.
\<close>

definition to_uint8 :: "'p vision \<Rightarrow> 'p ndarray \<Rightarrow> error + 'p ndarray" where
  "to_uint8 v a =
     (if nd_dtype a \<noteq> UInt8 then
        (case max_le_one v (nd_data a) of
           Inl e \<Rightarrow> Inl e
         | Inr small \<Rightarrow>
             (case (if small then scale_to_uint8 v (nd_data a) else astype_uint8 v (nd_data a)) of
                Inl e \<Rightarrow> Inl e
              | Inr d \<Rightarrow> Inr (a\<lparr>nd_dtype := UInt8, nd_data := d\<rparr>)))
      else Inr a)"

text \<open>
  Lines 105-110: a three-channel image is converted, a two-dimensional one is kept;
  an exception of \<open>cv2.cvtColor\<close> goes to the caller.
\<close>

definition to_gray :: "'p vision \<Rightarrow> 'p ndarray \<Rightarrow> error + 'p ndarray" where
  "to_gray v a =
     (if length (nd_shape a) = 3 \<and> nd_shape a ! 2 = 3
      then (case cvt_bgr2gray v (nd_data a) of
              Inl e \<Rightarrow> Inl e
            | Inr d \<Rightarrow> Inr (a\<lparr>nd_shape := take 2 (nd_shape a), nd_data := d\<rparr>))
      else if length (nd_shape a) = 2 then Inr a
      else Inl ValueError)"

text \<open>
  Lines 113-134, the body of the \<open>try\<close>: the value returned, or the exception that
  reaches the \<open>except\<close> clause.
\<close>

definition detect_body ::
  "'p vision \<Rightarrow> 'p ndarray \<Rightarrow> error + (rect option \<times> point list option)" where
  "detect_body v gray =
     (if \<not> predictor_file_exists v then Inl FileNotFoundError
      else case shape_predictor v of
        Inl e \<Rightarrow> Inl e
      | Inr predictor \<Rightarrow>
          (case detector v gray 1 of
             Inl e \<Rightarrow> Inl e
           | Inr faces \<Rightarrow>
               (if faces = [] then Inr (None, None)
                else case predictor gray (faces ! 0) of
                  Inl e \<Rightarrow> Inl e
                | Inr landmarks \<Rightarrow> Inr (Some (faces ! 0), Some landmarks))))"

text \<open>
  The whole function. The format checks and the conversions before the \<open>try\<close> block
  raise to the caller; every exception of the \<open>try\<close> block is caught and turned into
  \<open>(None, None)\<close> (the message shown by \<open>st.error\<close> is not part of the state modelled
  here).
\<close>

definition detect_landmarks ::
  "'p vision \<Rightarrow> 'p ndarray option \<Rightarrow> error + (rect option \<times> point list option)" where
  "detect_landmarks v img =
     (case img of
        None \<Rightarrow> Inl ValueError
      | Some a \<Rightarrow>
          (case to_uint8 v a of
             Inl e \<Rightarrow> Inl e
           | Inr u \<Rightarrow>
               (case to_gray v u of
                  Inl e \<Rightarrow> Inl e
                | Inr gray \<Rightarrow>
                    (case detect_body v gray of
                       Inl e \<Rightarrow> Inr (None, None)
                     | Inr r \<Rightarrow> Inr r))))"

subsection \<open>numpy indexing\<close>

text \<open>
  A slice bound \<open>k\<close> on an axis of length \<open>n\<close>: a negative bound counts from the end,
  and every bound is clipped to \<open>0..n\<close>.
\<close>

definition slice_index :: "nat \<Rightarrow> int \<Rightarrow> nat" where
  "slice_index n k = (if k < 0 then nat (max 0 (k + int n)) else min (nat k) n)"

text \<open>
  The slice \<open>a:b\<close> on an axis of length \<open>n\<close>, as first index and number of indices
  (none when the stop is not after the start).
\<close>

definition slice_range :: "nat \<Rightarrow> int \<Rightarrow> int \<Rightarrow> nat \<times> nat" where
  "slice_range n a b = (slice_index n a, slice_index n b - slice_index n a)"

text \<open>\<open>img[y:y + h, x:x + w]\<close> for \<open>r = (x, y, w, h)\<close>, read out as an array.\<close>

definition crop :: "image \<Rightarrow> rect \<Rightarrow> image" where
  "crop img r =
     (case r of (x, y, w, h) \<Rightarrow>
        (case slice_range (height img) y (y + h) of (rs, rn) \<Rightarrow>
           (case slice_range (width img) x (x + w) of (cs, cn) \<Rightarrow>
              map (\<lambda>row. take cn (drop cs row)) (take rn (drop rs img)))))"

text \<open>
  Broadcasting of two axis lengths (\<open>None\<close>: the operands could not be broadcast
  together, a \<open>ValueError\<close>), the index read on an axis of length \<open>n\<close> that is
  broadcast, and the test that a value axis of length \<open>b\<close> can be assigned to a target
  axis of length \<open>n\<close>.
\<close>

definition bcast :: "nat \<Rightarrow> nat \<Rightarrow> nat option" where
  "bcast n m = (if n = m then Some n else if n = 1 then Some m else if m = 1 then Some n else None)"

definition bidx :: "nat \<Rightarrow> nat \<Rightarrow> nat" where
  "bidx n i = (if n = 1 then 0 else i)"

definition assignable :: "nat \<Rightarrow> nat \<Rightarrow> bool" where
  "assignable b n = (b = n \<or> b = 1)"

text \<open>
  The slice assignment \<open>img[rs:rs + rn, cs:cs + cn] = val\<close> on the rows of the image:
  the elements of the region are replaced, all others are kept, no row is added or
  removed.
\<close>

definition assign_region ::
  "image \<Rightarrow> nat \<Rightarrow> nat \<Rightarrow> nat \<Rightarrow> nat \<Rightarrow> (nat \<Rightarrow> nat \<Rightarrow> pixel) \<Rightarrow> image" where
  "assign_region img rs rn cs cn val =
     map (\<lambda>(i, row).
            if rs \<le> i \<and> i < rs + rn
            then map (\<lambda>(j, p). if cs \<le> j \<and> j < cs + cn then val (i - rs) (j - cs) else p)
                     (enumerate 0 row)
            else row)
         (enumerate 0 img)"

subsection \<open>warp\_triangle\<close>

text \<open>
  The OpenCV routines of the warp and of the swap. \<open>'m\<close> is the type of a mask element
  (a float32), \<open>'a\<close> the type of an affine matrix.
  \<^item> \<open>boundingRect\<close>: the bounding rectangle of a list of points;
  \<^item> \<open>fillConvexPoly h w pts\<close>: the array of shape \<open>(h, w, 3)\<close> that results from
    filling the polygon \<open>pts\<close> with \<open>(1.0, 1.0, 1.0)\<close>, line type 16, on
    \<open>np.zeros((h, w, 3))\<close>, given by its elements \<open>[row][column][channel]\<close>;
  \<^item> \<open>getAffineTransform\<close> and \<open>warpAffine src mat (w, h)\<close> (linear interpolation,
    reflected border): the warped array of shape \<open>(h, w, 3)\<close>, given by its elements;
  \<^item> \<open>blend d m s\<close>: one element of \<open>img2_rect * (1 - mask) + warp * mask\<close>, for the
    destination element \<open>d\<close>, the mask element \<open>m\<close> and the warped element \<open>s\<close>,
    computed in float32 and converted to uint8 by the assignment into the image;
  \<^item> \<open>convexHull\<close> with \<open>returnPoints=False\<close>: indices into the points given;
  \<^item> \<open>triangleList rect pts\<close>: \<open>Subdiv2D(rect)\<close>, the insertion of \<open>pts\<close>,
    \<open>getTriangleList()\<close> and the conversion of the result to int32.
\<close>

type_synonym triangle = "int \<times> int \<times> int \<times> int \<times> int \<times> int"

record ('m, 'a) cv2 =
  boundingRect :: "point list \<Rightarrow> error + rect"
  fillConvexPoly :: "nat \<Rightarrow> nat \<Rightarrow> point list \<Rightarrow> error + (nat \<Rightarrow> nat \<Rightarrow> nat \<Rightarrow> 'm)"
  getAffineTransform :: "point list \<Rightarrow> point list \<Rightarrow> error + 'a"
  warpAffine :: "image \<Rightarrow> 'a \<Rightarrow> nat \<times> nat \<Rightarrow> error + (nat \<Rightarrow> nat \<Rightarrow> pixel)"
  blend :: "8 word \<Rightarrow> 'm \<Rightarrow> 8 word \<Rightarrow> 8 word"
  convexHull :: "point list \<Rightarrow> error + nat list"
  triangleList :: "rect \<Rightarrow> point list \<Rightarrow> error + triangle list"

text \<open>
  Lines 162-165: the first three points of a triangle, relative to the corner of its
  rectangle. The coordinates are integers held in float32, where they are exact.
\<close>

definition rel_points :: "point list \<Rightarrow> rect \<Rightarrow> point list" where
  "rel_points t r =
     (case r of (x, y, w, h) \<Rightarrow> map (\<lambda>i. (fst (t ! i) - x, snd (t ! i) - y)) [0..<3])"

definition blend_pixel :: "('m, 'a) cv2 \<Rightarrow> pixel \<Rightarrow> (nat \<Rightarrow> 'm) \<Rightarrow> pixel \<Rightarrow> pixel" where
  "blend_pixel cv d m s =
     (case d of (d0, d1, d2) \<Rightarrow>
        (case s of (s0, s1, s2) \<Rightarrow>
           (blend cv d0 (m 0) s0, blend cv d1 (m 1) s1, blend cv d2 (m 2) s2)))"

text \<open>
  \<open>warp_triangle img1 img2 t1 t2\<close>: the new content of \<open>img2\<close>, or the exception.
  \<open>img1\<close> is only read: \<open>img1_rect\<close> is a view that \<open>warpAffine\<close> reads, and the
  blended region is a new array that the last line copies into \<open>img2\<close>.
\<close>

definition warp_triangle ::
  "('m, 'a) cv2 \<Rightarrow> image \<Rightarrow> image \<Rightarrow> point list \<Rightarrow> point list \<Rightarrow> error + image" where
  "warp_triangle cv img1 img2 t1 t2 =
     (case boundingRect cv t1 of
        Inl e \<Rightarrow> Inl e
      | Inr r1 \<Rightarrow>
     (case boundingRect cv t2 of
        Inl e \<Rightarrow> Inl e
      | Inr r2 \<Rightarrow>
     (if length t1 < 3 \<or> length t2 < 3 then Inl IndexError
      else case r2 of (x2, y2, w2, h2) \<Rightarrow>
     (if h2 < 0 \<or> w2 < 0 then Inl ValueError
      else case fillConvexPoly cv (nat h2) (nat w2) (rel_points t2 r2) of
        Inl e \<Rightarrow> Inl e
      | Inr fill \<Rightarrow>
     (case getAffineTransform cv (rel_points t1 r1) (rel_points t2 r2) of
        Inl e \<Rightarrow> Inl e
      | Inr mat \<Rightarrow>
     (case warpAffine cv (crop img1 r1) mat (nat w2, nat h2) of
        Inl e \<Rightarrow> Inl e
      | Inr warp \<Rightarrow>
     (case slice_range (height img2) y2 (y2 + h2) of (rs, rn) \<Rightarrow>
     (case slice_range (width img2) x2 (x2 + w2) of (cs, cn) \<Rightarrow>
     (case bcast rn (nat h2) of
        None \<Rightarrow> Inl ValueError
      | Some bh \<Rightarrow>
     (case bcast cn (nat w2) of
        None \<Rightarrow> Inl ValueError
      | Some bw \<Rightarrow>
          if assignable bh rn \<and> assignable bw cn
          then Inr (assign_region img2 rs rn cs cn
                 (\<lambda>i j. blend_pixel cv
                    (img2 ! (rs + bidx rn (bidx bh i)) ! (cs + bidx cn (bidx bw j)))
                    (fill (bidx (nat h2) (bidx bh i)) (bidx (nat w2) (bidx bw j)))
                    (warp (bidx (nat h2) (bidx bh i)) (bidx (nat w2) (bidx bw j)))))
          else Inl ValueError))))))))))"

subsection \<open>swap\_faces\<close>

text \<open>
  Arrays are passed by reference. The heap is the list of the arrays allocated so far,
  an address is a position in it, and \<open>np.copy\<close> allocates a new position at the end.
  \<open>warps\<close> records the arguments of every call of \<open>warp_triangle\<close> that
  \<open>swap_faces\<close> makes, in order; it is not read by the program.
\<close>

record world =
  heap :: "image list"
  warps :: "(point list \<times> point list) list"

definition as_ndarray :: "image \<Rightarrow> image ndarray" where
  "as_ndarray img = \<lparr>nd_dtype = UInt8, nd_shape = [height img, width img, 3], nd_data = img\<rparr>"

text \<open>
  Lines 218-220: one pass over the hull indices appends to both lists the point at
  the same landmark index; an index outside a landmark array raises.
\<close>

fun hull_points ::
  "point list \<Rightarrow> point list \<Rightarrow> nat list \<Rightarrow> point list \<times> point list
   \<Rightarrow> error + point list \<times> point list" where
  "hull_points points1 points2 [] acc = Inr acc"
| "hull_points points1 points2 (k # ks) (hp1, hp2) =
     (if k < length points1 \<and> k < length points2
      then hull_points points1 points2 ks (hp1 @ [points1 ! k], hp2 @ [points2 ! k])
      else Inl IndexError)"

text \<open>Line 239: the three vertices of a row of the triangle list.\<close>

definition vertices :: "triangle \<Rightarrow> point list" where
  "vertices t = (case t of (x0, y0, x1, y1, x2, y2) \<Rightarrow> [(x0, y0), (x1, y1), (x2, y2)])"

text \<open>Line 241: the positions of the hull points equal to \<open>pt\<close>, in increasing order.\<close>

definition np_where :: "point list \<Rightarrow> point \<Rightarrow> nat list" where
  "np_where hp pt = filter (\<lambda>i. hp ! i = pt) [0..<length hp]"

text \<open>
  Lines 238-245: a vertex with no match is skipped (\<open>continue\<close>); a matched vertex is
  appended to \<open>pts2\<close>, and the source hull point at the first matching position to
  \<open>pts1\<close>.
\<close>

fun resolve ::
  "point list \<Rightarrow> point list \<Rightarrow> point list \<Rightarrow> point list \<times> point list
   \<Rightarrow> error + point list \<times> point list" where
  "resolve hp1 hp2 [] acc = Inr acc"
| "resolve hp1 hp2 (pt # rest) (pts1, pts2) =
     (case np_where hp2 pt of
        [] \<Rightarrow> resolve hp1 hp2 rest (pts1, pts2)
      | k # _ \<Rightarrow>
          if k < length hp1
          then resolve hp1 hp2 rest (pts1 @ [hp1 ! k], pts2 @ [pt])
          else Inl IndexError)"

text \<open>
  Lines 234-248: the loop over the triangles. \<open>a1\<close> is the address of the source image,
  \<open>out\<close> the address of the output. The result is the exception that ended the loop,
  if any, and the world at that point.
\<close>

fun process_triangles ::
  "('m, 'a) cv2 \<Rightarrow> nat \<Rightarrow> nat \<Rightarrow> point list \<Rightarrow> point list \<Rightarrow> triangle list \<Rightarrow> world
   \<Rightarrow> error option \<times> world" where
  "process_triangles cv a1 out hp1 hp2 [] w = (None, w)"
| "process_triangles cv a1 out hp1 hp2 (t # ts) w =
     (case resolve hp1 hp2 (vertices t) ([], []) of
        Inl e \<Rightarrow> (Some e, w)
      | Inr (pts1, pts2) \<Rightarrow>
          if length pts1 = 3 \<and> length pts2 = 3
          then (case warp_triangle cv (heap w ! a1) (heap w ! out) pts1 pts2 of
                  Inl e \<Rightarrow> (Some e, w\<lparr>warps := warps w @ [(pts1, pts2)]\<rparr>)
                | Inr img \<Rightarrow>
                    process_triangles cv a1 out hp1 hp2 ts
                      (w\<lparr>heap := (heap w)[out := img], warps := warps w @ [(pts1, pts2)]\<rparr>))
          else process_triangles cv a1 out hp1 hp2 ts w)"

text \<open>Lines 211-250, once both landmark arrays are there.\<close>

definition swap_points ::
  "('m, 'a) cv2 \<Rightarrow> nat \<Rightarrow> nat \<Rightarrow> point list \<Rightarrow> point list \<Rightarrow> world \<Rightarrow> (error + nat) \<times> world" where
  "swap_points cv a1 out points1 points2 w =
     (case convexHull cv points2 of
        Inl e \<Rightarrow> (Inl e, w)
      | Inr hull2 \<Rightarrow>
     (case hull_points points1 points2 hull2 ([], []) of
        Inl e \<Rightarrow> (Inl e, w)
      | Inr (hp1, hp2) \<Rightarrow>
     (case boundingRect cv hp2 of
        Inl e \<Rightarrow> (Inl e, w)
      | Inr rect \<Rightarrow>
     (case triangleList cv rect hp2 of
        Inl e \<Rightarrow> (Inl e, w)
      | Inr triangles \<Rightarrow>
     (case process_triangles cv a1 out hp1 hp2 triangles w of
        (Some e, w') \<Rightarrow> (Inl e, w')
      | (None, w') \<Rightarrow> (Inr out, w'))))))"

text \<open>
  \<open>swap_faces\<close> on the images at the addresses \<open>a1\<close> and \<open>a2\<close>: the address of the
  returned array or the exception raised, and the world afterwards.
\<close>

definition swap_faces ::
  "image vision \<Rightarrow> ('m, 'a) cv2 \<Rightarrow> nat \<Rightarrow> nat \<Rightarrow> world \<Rightarrow> (error + nat) \<times> world" where
  "swap_faces v cv a1 a2 w =
     (let out = length (heap w);
          w1 = w\<lparr>heap := heap w @ [heap w ! a2]\<rparr>
      in case detect_landmarks v (Some (as_ndarray (heap w1 ! a1))) of
           Inl e \<Rightarrow> (Inl e, w1)
         | Inr (face1, landmarks1) \<Rightarrow>
        (case detect_landmarks v (Some (as_ndarray (heap w1 ! a2))) of
           Inl e \<Rightarrow> (Inl e, w1)
         | Inr (face2, landmarks2) \<Rightarrow>
        (case landmarks1 of
           None \<Rightarrow> (Inl ValueError, w1)
         | Some points1 \<Rightarrow>
        (case landmarks2 of
           None \<Rightarrow> (Inl ValueError, w1)
         | Some points2 \<Rightarrow> swap_points cv a1 out points1 points2 w1))))"

subsection \<open>load\_and\_prepare\_image\<close>

text \<open>
  The temporary directory: the paths of the files in it, and the next unused name.
  \<open>NamedTemporaryFile(delete=False)\<close> creates a file under a new name, \<open>os.unlink\<close>
  removes one.
\<close>

type_synonym path = nat

record disk =
  files :: "path list"
  next_path :: path

definition named_temporary_file :: "disk \<Rightarrow> path \<times> disk" where
  "named_temporary_file d =
     (next_path d, d\<lparr>files := files d @ [next_path d], next_path := Suc (next_path d)\<rparr>)"

definition unlink :: "path \<Rightarrow> disk \<Rightarrow> disk" where
  "unlink p d = d\<lparr>files := removeAll p (files d)\<rparr>"

text \<open>
  The library routines of the loader: \<open>cv2.imdecode\<close> of the uploaded bytes, the write
  of the bytes into the temporary file, \<open>cv2.imread\<close> of a file holding these bytes, and
  \<open>cv2.imwrite\<close>. A decoder returns \<open>None\<close> for bytes it cannot decode.
\<close>

record io =
  imdecode :: "8 word list \<Rightarrow> error + image option"
  tmp_write :: "8 word list \<Rightarrow> error + unit"
  imread :: "8 word list \<Rightarrow> error + image option"
  imwrite :: "image \<Rightarrow> error + bool"

text \<open>\<open>cv2.cvtColor(image, cv2.COLOR_BGR2RGB)\<close>: the first and third channel change places.\<close>

definition cvt_bgr2rgb :: "image \<Rightarrow> image" where
  "cvt_bgr2rgb img = map (map (\<lambda>(b, g, r). (r, g, b))) img"

text \<open>
  Lines 58-66, the second attempt: the file is unlinked once \<open>imread\<close> has returned,
  before the test of its result.
\<close>

definition fallback_decode :: "io \<Rightarrow> 8 word list \<Rightarrow> disk \<Rightarrow> (error + image) \<times> disk" where
  "fallback_decode io bytes d =
     (case named_temporary_file d of (p, d1) \<Rightarrow>
        (case tmp_write io bytes of
           Inl e \<Rightarrow> (Inl e, d1)
         | Inr _ \<Rightarrow>
             (case imread io bytes of
                Inl e \<Rightarrow> (Inl e, d1)
              | Inr r \<Rightarrow>
                  (case r of
                     None \<Rightarrow> (Inl ValueError, unlink p d1)
                   | Some img \<Rightarrow> (Inr img, unlink p d1)))))"

text \<open>
  Lines 51-75, the body of the \<open>try\<close>: after a successful decode a second temporary
  file is created, the image is written into it, and its name is returned.
\<close>

definition load_body ::
  "io \<Rightarrow> 8 word list \<Rightarrow> disk \<Rightarrow> (error + image \<times> path) \<times> disk" where
  "load_body io bytes d =
     (case imdecode io bytes of
        Inl e \<Rightarrow> (Inl e, d)
      | Inr r \<Rightarrow>
          (case (case r of None \<Rightarrow> fallback_decode io bytes d | Some img \<Rightarrow> (Inr img, d)) of
             (Inl e, d1) \<Rightarrow> (Inl e, d1)
           | (Inr img, d1) \<Rightarrow>
               (case named_temporary_file d1 of (p, d2) \<Rightarrow>
                  (case imwrite io img of
                     Inl e \<Rightarrow> (Inl e, d2)
                   | Inr _ \<Rightarrow> (Inr (cvt_bgr2rgb img, p), d2)))))"

text \<open>
  The whole function: the image and the path returned (\<open>None\<close> for Python's \<open>None\<close> and
  for the empty path), and the temporary directory afterwards. Every exception of the
  body ends in \<open>return None, ""\<close>.
\<close>

definition load_and_prepare_image ::
  "io \<Rightarrow> 8 word list option \<Rightarrow> disk \<Rightarrow> (image option \<times> path option) \<times> disk" where
  "load_and_prepare_image io uploaded_file d =
     (case uploaded_file of
        None \<Rightarrow> ((None, None), d)
      | Some bytes \<Rightarrow>
          (case load_body io bytes d of
             (Inl e, d') \<Rightarrow> ((None, None), d')
           | (Inr (img, p), d') \<Rightarrow> ((Some img, Some p), d')))"

subsection \<open>Concrete instances\<close>

text \<open>
  Small instances of the library records, on which the functions above can be run.
  A detector that reports two faces, and a predictor that returns the corner of the
  face rectangle it is given:
\<close>

definition two_faces :: "unit vision" where
  "two_faces =
     \<lparr>max_le_one = (\<lambda>_. Inr False), scale_to_uint8 = (\<lambda>d. Inr d),
      astype_uint8 = (\<lambda>d. Inr d), cvt_bgr2gray = (\<lambda>d. Inr d), predictor_file_exists = True,
      shape_predictor = Inr (\<lambda>g (x, y, w, h). Inr [(x, y)]),
      detector = (\<lambda>g u. Inr [(5, 6, 7, 8), (1, 2, 3, 4)])\<rparr>"

text \<open>Decoders that accept every non-empty byte string:\<close>

definition one_pixel_row :: "pixel list" where
  "one_pixel_row = [(1, 2, 3)]"

definition decoding_io :: io where
  "decoding_io =
     \<lparr>imdecode = (\<lambda>bytes. Inr (if bytes = [] then None else Some [one_pixel_row])),
      tmp_write = (\<lambda>bytes. Inr ()),
      imread = (\<lambda>bytes. Inr (if bytes = [] then None else Some [one_pixel_row])),
      imwrite = (\<lambda>img. Inr True)\<rparr>"

definition empty_disk :: disk where
  "empty_disk = \<lparr>files = [], next_path = 0\<rparr>"

text \<open>
  Two images of three rows and three columns, one red and one blue, and a blue image
  of one row and two columns that is too small to hold a face.
\<close>

definition red :: pixel where
  "red = (200, 10, 10)"

definition blue :: pixel where
  "blue = (10, 10, 200)"

definition red_row :: "pixel list" where
  "red_row = [red, red, red]"

definition blue_row :: "pixel list" where
  "blue_row = [blue, blue, blue]"

definition red_image :: image where
  "red_image = [red_row, red_row, red_row]"

definition blue_image :: image where
  "blue_image = [blue_row, blue_row, blue_row]"

definition small_image :: image where
  "small_image = [take 2 blue_row]"

definition demo_world :: world where
  "demo_world = \<lparr>heap = [red_image, blue_image, small_image], warps = []\<rparr>"

text \<open>A world whose first array has no rows, and whose second array holds no face.\<close>

definition empty_image :: image where
  "empty_image = []"

definition empty_world :: world where
  "empty_world = \<lparr>heap = [empty_image, small_image], warps = []\<rparr>"

text \<open>
  The conversion to grey raises on an image without rows; the detector finds one face
  in an image at least three columns wide; the predictor returns four landmarks,
  whose positions depend on the colour of the image.
\<close>

definition red_landmarks :: "point list" where
  "red_landmarks = [(1, 1), (2, 1), (1, 2), (2, 2)]"

definition blue_landmarks :: "point list" where
  "blue_landmarks = [(0, 0), (2, 0), (0, 2), (1, 1)]"

definition demo_vision :: "image vision" where
  "demo_vision =
     \<lparr>max_le_one = (\<lambda>_. Inr False), scale_to_uint8 = (\<lambda>d. Inr d),
      astype_uint8 = (\<lambda>d. Inr d),
      cvt_bgr2gray = (\<lambda>d. if d = [] then Inl LibError else Inr d),
      predictor_file_exists = True,
      shape_predictor =
        Inr (\<lambda>g f. Inr (if hd (hd (nd_data g)) = red then red_landmarks else blue_landmarks)),
      detector = (\<lambda>g u. if width (nd_data g) < 3 then Inr [] else Inr [(0, 0, 3, 3)])\<rparr>"

text \<open>
  The bounding rectangle of integer points; a mask that is set below the
  anti-diagonal of the rectangle; a warp that repeats the first source pixel; a blend
  that selects by the mask; a hull of the first three landmarks; a triangle list
  with the hull triangle and one triangle that has a vertex off the hull.
\<close>

definition bbox :: "point list \<Rightarrow> rect" where
  "bbox pts =
     (let xs = map fst pts; ys = map snd pts;
          x0 = fold min xs (hd xs); y0 = fold min ys (hd ys);
          x1 = fold max xs (hd xs); y1 = fold max ys (hd ys)
      in (x0, y0, x1 - x0 + 1, y1 - y0 + 1))"

definition demo_triangles :: "triangle list" where
  "demo_triangles = [(0, 0, 2, 0, 0, 2), (0, 0, 2, 0, 9, 9)]"

definition demo_cv :: "(bool, unit) cv2" where
  "demo_cv =
     \<lparr>boundingRect = (\<lambda>pts. Inr (bbox pts)),
      fillConvexPoly = (\<lambda>h w pts. Inr (\<lambda>i j c. i + j < h)),
      getAffineTransform = (\<lambda>src dst. Inr ()),
      warpAffine = (\<lambda>src mat (w, h). Inr (\<lambda>i j. src ! 0 ! 0)),
      blend = (\<lambda>d m s. if m then s else d),
      convexHull = (\<lambda>pts. Inr [0, 1, 2]),
      triangleList = (\<lambda>r pts. Inr demo_triangles)\<rparr>"

definition swapped_image :: image where
  "swapped_image = [red_row, [red, red, blue], [red, blue, blue]]"

definition demo_result :: world where
  "demo_result =
     \<lparr>heap = [red_image, blue_image, small_image, swapped_image],
      warps = [([(1, 1), (2, 1), (1, 2)], [(0, 0), (2, 0), (0, 2)])]\<rparr>"

section \<open>Lemmas\<close>

subsection \<open>Slice assignment\<close>

lemma map_length_assign_region:
  "map length (assign_region img rs rn cs cn val) = map length img"
  by (rule nth_equalityI) (simp_all add: assign_region_def nth_enumerate_eq)

lemma length_assign_region: "length (assign_region img rs rn cs cn val) = length img"
  by (simp add: assign_region_def)


lemma assign_region_nth:
  assumes "i < length img" and "j < length (img ! i)"
  shows "assign_region img rs rn cs cn val ! i ! j =
           (if rs \<le> i \<and> i < rs + rn \<and> cs \<le> j \<and> j < cs + cn
            then val (i - rs) (j - cs) else img ! i ! j)"
  using assms by (simp add: assign_region_def nth_enumerate_eq)

lemma slice_range_inside:
  assumes "0 \<le> a" and "0 \<le> l" and "slice_range n a (a + l) = (s, m)"
    and "s \<le> i" and "i < s + m"
  shows "a \<le> int i \<and> int i < a + l"
proof -
  from assms(1-3) have "s = min (nat a) n" "m = min (nat (a + l)) n - min (nat a) n"
    by (auto simp: slice_range_def slice_index_def)
  with assms(1,2,4,5) show ?thesis by (simp add: min_def split: if_splits) arith+
qed


subsection \<open>What warp\_triangle changes\<close>

lemma warp_triangle_shape:
  "warp_triangle cv img1 img2 t1 t2 = Inr img' \<Longrightarrow> map length img' = map length img2"
  by (auto simp: warp_triangle_def map_length_assign_region split: sum.splits prod.splits if_splits option.splits)


text \<open>
  An element of the destination outside the bounding rectangle of the destination
  triangle is not changed (for a rectangle with non-negative corner, where the slice
  does not wrap around).
\<close>

lemma warp_triangle_outside_rect:
  assumes "warp_triangle cv img1 img2 t1 t2 = Inr img'"
    and "boundingRect cv t2 = Inr (x, y, w, h)"
    and "0 \<le> x" and "0 \<le> y"
    and "i < length img2" and "j < length (img2 ! i)"
    and "\<not> (y \<le> int i \<and> int i < y + h \<and> x \<le> int j \<and> int j < x + w)"
  shows "img' ! i ! j = img2 ! i ! j"
proof -
  obtain rs rn where r: "slice_range (height img2) y (y + h) = (rs, rn)"
    by (cases "slice_range (height img2) y (y + h)")
  obtain cs cn where c: "slice_range (width img2) x (x + w) = (cs, cn)"
    by (cases "slice_range (width img2) x (x + w)")
  from assms(1,2) r c obtain val where img': "img' = assign_region img2 rs rn cs cn val"
    and nonneg: "0 \<le> h" "0 \<le> w"
    by (auto simp: warp_triangle_def split: sum.splits if_splits option.splits)
  have out: "\<not> (rs \<le> i \<and> i < rs + rn \<and> cs \<le> j \<and> j < cs + cn)"
    using slice_range_inside [OF assms(4) nonneg(1) r, of i]
      slice_range_inside [OF assms(3) nonneg(2) c, of j] assms(7)
    by blast
  have "img' ! i ! j =
          (if rs \<le> i \<and> i < rs + rn \<and> cs \<le> j \<and> j < cs + cn
           then val (i - rs) (j - cs) else img2 ! i ! j)"
    unfolding img' using assms(5,6) by (rule assign_region_nth)
  with out show ?thesis by (simp only: if_False)
qed

text \<open>
  An element inside the rectangle, when the rectangle lies within the image: it is
  the blend of the former element with the warped element, weighted by the mask, in
  each channel.
\<close>

lemma slice_range_in_bounds:
  assumes "0 \<le> a" and "0 \<le> l" and "a + l \<le> int n"
  shows "slice_range n a (a + l) = (nat a, nat l)"
  using assms by (auto simp: slice_range_def slice_index_def min_def)

lemma bidx_same: "i < n \<Longrightarrow> bidx n (bidx n i) = i"
  by (auto simp: bidx_def)

lemma warp_triangle_inside_rect:
  assumes "warp_triangle cv img1 img2 t1 t2 = Inr img'"
    and "boundingRect cv t1 = Inr r1"
    and "boundingRect cv t2 = Inr (x, y, w, h)"
    and "fillConvexPoly cv (nat h) (nat w) (rel_points t2 (x, y, w, h)) = Inr fill"
    and "getAffineTransform cv (rel_points t1 r1) (rel_points t2 (x, y, w, h)) = Inr mat"
    and "warpAffine cv (crop img1 r1) mat (nat w, nat h) = Inr warp"
    and "0 \<le> x" and "0 \<le> y"
    and "y + h \<le> int (height img2)" and "x + w \<le> int (width img2)"
    and "i < nat h" and "j < nat w"
    and "nat x + j < length (img2 ! (nat y + i))"
  shows "img' ! (nat y + i) ! (nat x + j) =
           blend_pixel cv (img2 ! (nat y + i) ! (nat x + j)) (fill i j) (warp i j)"
proof -
  from assms(11,12) have pos: "0 \<le> h" "0 \<le> w" by auto
  have r: "slice_range (height img2) y (y + h) = (nat y, nat h)"
    using assms(8,9) pos by (rule_tac slice_range_in_bounds)
  have c: "slice_range (width img2) x (x + w) = (nat x, nat w)"
    using assms(7,10) pos by (rule_tac slice_range_in_bounds)
  let ?val = "\<lambda>i j. blend_pixel cv
                    (img2 ! (nat y + bidx (nat h) (bidx (nat h) i)) ! (nat x + bidx (nat w) (bidx (nat w) j)))
                    (fill (bidx (nat h) (bidx (nat h) i)) (bidx (nat w) (bidx (nat w) j)))
                    (warp (bidx (nat h) (bidx (nat h) i)) (bidx (nat w) (bidx (nat w) j)))"
  from assms(1-6) r c pos
  have img': "img' = assign_region img2 (nat y) (nat h) (nat x) (nat w) ?val"
    by (simp add: warp_triangle_def bcast_def assignable_def split: if_splits)
  have row: "nat y + i < length img2"
    using assms(8,9,11) by (simp add: height_def)
  have "img' ! (nat y + i) ! (nat x + j) = ?val i j"
    unfolding img' using assign_region_nth [OF row assms(13), of "nat y" "nat h" "nat x" "nat w" ?val]
      assms(11,12) by simp
  then show ?thesis
    using assms(11,12) by (simp add: bidx_same)
qed

subsection \<open>The loop over the triangles\<close>

lemma process_triangles_heap:
  "process_triangles cv a1 out hp1 hp2 ts w = (r, w') \<Longrightarrow>
     length (heap w') = length (heap w) \<and> (\<forall>a. a \<noteq> out \<longrightarrow> heap w' ! a = heap w ! a)"
proof (induction ts arbitrary: w)
  case Nil
  then show ?case by simp
next
  case (Cons t ts)
  then show ?case
    by (fastforce split: sum.splits prod.splits if_splits)
qed

lemma process_triangles_shape:
  "process_triangles cv a1 out hp1 hp2 ts w = (r, w') \<Longrightarrow> out < length (heap w) \<Longrightarrow>
     map length (heap w' ! out) = map length (heap w ! out)"
proof (induction ts arbitrary: w)
  case Nil
  then show ?case by simp
next
  case (Cons t ts)
  then show ?case
    by (fastforce split: sum.splits prod.splits if_splits dest: warp_triangle_shape)
qed

lemma width_cong: "map length a = map length b \<Longrightarrow> width a = width b"
  by (cases a; cases b) (simp_all add: width_def)

lemma height_cong: "map length a = map length b \<Longrightarrow> height a = height b"
  using map_eq_imp_length_eq by (auto simp: height_def)

lemma np_where_Nil: "np_where hp pt = [] \<longleftrightarrow> pt \<notin> set hp"
  by (auto simp: np_where_def filter_empty_conv in_set_conv_nth)

lemma np_where_Cons: "np_where hp pt = k # ks \<Longrightarrow> k < length hp \<and> hp ! k = pt"
proof -
  assume "np_where hp pt = k # ks"
  then have "k \<in> set (filter (\<lambda>i. hp ! i = pt) [0..<length hp])"
    by (simp add: np_where_def)
  then show ?thesis by simp
qed

lemma hull_points_map:
  "hull_points points1 points2 hull2 (hp1, hp2) = Inr (r1, r2) \<Longrightarrow>
     r1 = hp1 @ map ((!) points1) hull2 \<and> r2 = hp2 @ map ((!) points2) hull2"
proof (induction hull2 arbitrary: hp1 hp2)
  case Nil
  then show ?case by simp
next
  case (Cons k ks)
  from Cons.prems have "k < length points1 \<and> k < length points2"
    by (simp split: if_splits)
  with Cons.prems
  have "hull_points points1 points2 ks (hp1 @ [points1 ! k], hp2 @ [points2 ! k]) = Inr (r1, r2)"
    by simp
  from Cons.IH [OF this] show ?case by simp
qed

lemma resolve_same_length:
  "length hp1 = length hp2 \<Longrightarrow>
   \<exists>p1 p2. resolve hp1 hp2 vs (a1, a2) = Inr (p1, p2)
      \<and> length p1 = length a1 + length (filter (\<lambda>v. v \<in> set hp2) vs)
      \<and> length p2 = length a2 + length (filter (\<lambda>v. v \<in> set hp2) vs)"
proof (induction vs arbitrary: a1 a2)
  case Nil
  then show ?case by simp
next
  case (Cons v vs)
  show ?case
  proof (cases "np_where hp2 v")
    case Nil
    then have "v \<notin> set hp2" by (simp add: np_where_Nil)
    with Nil Cons show ?thesis by simp
  next
    case (Cons k ks)
    then have k: "k < length hp2" "hp2 ! k = v" using np_where_Cons by auto
    then have "v \<in> set hp2" by auto
    with Cons k \<open>length hp1 = length hp2\<close> Cons.IH [of "a1 @ [hp1 ! k]" "a2 @ [v]"]
    show ?thesis by auto
  qed
qed

lemma resolve_discard:
  assumes "length hp1 = length hp2" and "\<not> set (vertices t) \<subseteq> set hp2"
  shows "\<exists>p1 p2. resolve hp1 hp2 (vertices t) ([], []) = Inr (p1, p2) \<and> length p2 < 3"
proof -
  obtain p1 p2 where r: "resolve hp1 hp2 (vertices t) ([], []) = Inr (p1, p2)"
    and l: "length p2 = length (filter (\<lambda>v. v \<in> set hp2) (vertices t))"
    using resolve_same_length [OF assms(1), of "vertices t" "[]" "[]"] by auto
  have "length (vertices t) = 3"
    by (simp add: vertices_def split: prod.splits)
  moreover have "length (filter (\<lambda>v. v \<in> set hp2) (vertices t)) < length (vertices t)"
  proof -
    from assms(2) obtain v where "v \<in> set (vertices t)" "v \<notin> set hp2" by auto
    then show ?thesis by (rule length_filter_less)
  qed
  ultimately show ?thesis using r l by auto
qed

lemma process_triangles_skip:
  assumes "length hp1 = length hp2" and "\<not> set (vertices t) \<subseteq> set hp2"
  shows "process_triangles cv a1 out hp1 hp2 (t # ts) w = process_triangles cv a1 out hp1 hp2 ts w"
  using resolve_discard [OF assms] by auto

lemma process_triangles_append_skip:
  assumes "length hp1 = length hp2" and "\<not> set (vertices t) \<subseteq> set hp2"
  shows "process_triangles cv a1 out hp1 hp2 (ts1 @ t # ts2) w
       = process_triangles cv a1 out hp1 hp2 (ts1 @ ts2) w"
proof (induction ts1 arbitrary: w)
  case Nil
  show ?case using process_triangles_skip [OF assms] by simp
next
  case (Cons s ts1)
  show ?case
    by (simp add: Cons.IH split: sum.splits prod.splits)
qed

lemma resolve_pairs:
  assumes "length hp1 = length hp2"
    and "resolve hp1 hp2 vs (a1, a2) = Inr (p1, p2)"
    and "list_all2 (\<lambda>s d. \<exists>n<length hp2. s = hp1 ! n \<and> d = hp2 ! n) a1 a2"
  shows "list_all2 (\<lambda>s d. \<exists>n<length hp2. s = hp1 ! n \<and> d = hp2 ! n) p1 p2"
  using assms(2,3)
proof (induction vs arbitrary: a1 a2)
  case Nil
  then show ?case by simp
next
  case (Cons v vs)
  show ?case
  proof (cases "np_where hp2 v")
    case Nil
    with Cons show ?thesis by simp
  next
    case (Cons k ks)
    then have k: "k < length hp2" "hp2 ! k = v" using np_where_Cons by auto
    with Cons Cons.prems assms(1)
    have r: "resolve hp1 hp2 vs (a1 @ [hp1 ! k], a2 @ [v]) = Inr (p1, p2)" by simp
    have "list_all2 (\<lambda>s d. \<exists>n<length hp2. s = hp1 ! n \<and> d = hp2 ! n) (a1 @ [hp1 ! k]) (a2 @ [v])"
      using Cons.prems(2) k by (auto intro!: list_all2_appendI)
    from Cons.IH [OF r this] show ?thesis .
  qed
qed

lemma process_triangles_warps:
  assumes "length hp1 = length hp2"
    and "process_triangles cv a1 out hp1 hp2 ts w = (r, w')"
  shows "\<exists>new. warps w' = warps w @ new \<and>
           (\<forall>(t1, t2)\<in>set new. length t1 = 3 \<and> length t2 = 3 \<and>
              list_all2 (\<lambda>s d. \<exists>n<length hp2. s = hp1 ! n \<and> d = hp2 ! n) t1 t2)"
  using assms(2)
proof (induction ts arbitrary: w)
  case Nil
  then show ?case by simp
next
  case (Cons t ts)
  obtain p1 p2 where res: "resolve hp1 hp2 (vertices t) ([], []) = Inr (p1, p2)"
    using resolve_same_length [OF assms(1), of "vertices t" "[]" "[]"] by auto
  have pairs: "list_all2 (\<lambda>s d. \<exists>n<length hp2. s = hp1 ! n \<and> d = hp2 ! n) p1 p2"
    using resolve_pairs [OF assms(1) res] by simp
  show ?case
  proof (cases "length p1 = 3 \<and> length p2 = 3")
    case False
    with Cons res show ?thesis by auto
  next
    case True
    show ?thesis
    proof (cases "warp_triangle cv (heap w ! a1) (heap w ! out) p1 p2")
      case (Inl e)
      with Cons.prems res True pairs show ?thesis by auto
    next
      case (Inr img)
      let ?w = "w\<lparr>heap := (heap w)[out := img], warps := warps w @ [(p1, p2)]\<rparr>"
      from Cons.prems res True Inr
      have "process_triangles cv a1 out hp1 hp2 ts ?w = (r, w')" by simp
      from Cons.IH [OF this] obtain new where
        "warps w' = warps ?w @ new"
        "\<forall>(t1, t2)\<in>set new. length t1 = 3 \<and> length t2 = 3 \<and>
              list_all2 (\<lambda>s d. \<exists>n<length hp2. s = hp1 ! n \<and> d = hp2 ! n) t1 t2"
        by blast
      with True pairs show ?thesis
        by (intro exI [of _ "(p1, p2) # new"]) auto
    qed
  qed
qed

lemma swap_points_heap:
  assumes "swap_points cv a1 out points1 points2 w = (r, w')"
  shows "length (heap w') = length (heap w) \<and> (\<forall>a. a \<noteq> out \<longrightarrow> heap w' ! a = heap w ! a)
       \<and> (out < length (heap w) \<longrightarrow> map length (heap w' ! out) = map length (heap w ! out))
       \<and> (\<forall>b. r = Inr b \<longrightarrow> b = out)"
  using assms
  by (auto simp: swap_points_def split: sum.splits prod.splits option.splits
      dest: process_triangles_heap process_triangles_shape)

lemma swap_faces_cases:
  assumes "swap_faces v cv a1 a2 w = (r, w')"
  shows "(r \<in> range Inl \<and> w' = w\<lparr>heap := heap w @ [heap w ! a2]\<rparr>) \<or>
         (\<exists>points1 points2. 
            swap_points cv a1 (length (heap w)) points1 points2 (w\<lparr>heap := heap w @ [heap w ! a2]\<rparr>) = (r, w'))"
  using assms
  by (auto simp: swap_faces_def Let_def split: sum.splits prod.splits option.splits)

lemma swap_points_warps:
  assumes "swap_points cv a1 out points1 points2 w = (r, w')"
  shows "\<exists>new. warps w' = warps w @ new \<and>
           (\<forall>(t1, t2)\<in>set new. length t1 = 3 \<and> length t2 = 3 \<and>
              list_all2 (\<lambda>s d. \<exists>k. s = points1 ! k \<and> d = points2 ! k) t1 t2)"
proof (cases "convexHull cv points2")
  case (Inl e)
  with assms show ?thesis by (simp add: swap_points_def)
next
  case hull: (Inr hull2)
  show ?thesis
  proof (cases "hull_points points1 points2 hull2 ([], [])")
    case (Inl e)
    with assms hull show ?thesis by (simp add: swap_points_def)
  next
    case (Inr hp)
    obtain hp1 hp2 where hp: "hp = (hp1, hp2)" by (cases hp)
    with Inr hull_points_map [of points1 points2 hull2 "[]" "[]" hp1 hp2]
    have maps: "hp1 = map ((!) points1) hull2" "hp2 = map ((!) points2) hull2" by simp_all
    then have len: "length hp1 = length hp2" by simp
    have weaken: "list_all2 (\<lambda>s d. \<exists>k. s = points1 ! k \<and> d = points2 ! k) t1 t2"
      if "list_all2 (\<lambda>s d. \<exists>n<length hp2. s = hp1 ! n \<and> d = hp2 ! n) t1 t2" for t1 t2
      using that maps by (auto elim!: list_all2_mono)
    show ?thesis
    proof (cases "boundingRect cv hp2")
      case (Inl e)
      with assms hull Inr hp show ?thesis by (simp add: swap_points_def)
    next
      case br: (Inr rect)
      show ?thesis
      proof (cases "triangleList cv rect hp2")
        case (Inl e)
        with assms hull Inr hp br show ?thesis by (simp add: swap_points_def)
      next
        case tl: (Inr ts)
        obtain e w2 where pt: "process_triangles cv a1 out hp1 hp2 ts w = (e, w2)"
          by (cases "process_triangles cv a1 out hp1 hp2 ts w")
        with assms hull Inr hp br tl have "w' = w2"
          by (auto simp: swap_points_def split: option.splits)
        with process_triangles_warps [OF len pt] weaken show ?thesis by fastforce
      qed
    qed
  qed
qed


text \<open>
  When source and destination are one array, every call of \<open>warp_triangle\<close> gets the
  same triangle twice: the affine transform is computed from identical points.
\<close>

lemma swap_same_image_triangles:
  assumes "a < length (heap w)" and "swap_faces v cv a a w = (r, w')"
  shows "\<forall>(t1, t2)\<in>set (drop (length (warps w)) (warps w')). t1 = t2"
proof -
  let ?w1 = "w\<lparr>heap := heap w @ [heap w ! a]\<rparr>"
  let ?d = "detect_landmarks v (Some (as_ndarray (heap ?w1 ! a)))"
  show ?thesis
  proof (cases "\<exists>f points. ?d = Inr (f, Some points)")
    case False
    with assms(2) have "w' = ?w1"
      by (auto simp: swap_faces_def Let_def split: sum.splits option.splits prod.splits)
    then show ?thesis by simp
  next
    case True
    then obtain f points where d: "?d = Inr (f, Some points)" by blast
    with assms(2) have "swap_points cv a (length (heap w)) points points ?w1 = (r, w')"
      by (simp add: swap_faces_def Let_def)
    from swap_points_warps [OF this] obtain new where
      new: "warps w' = warps w @ new"
      and all: "\<forall>(t1, t2)\<in>set new. length t1 = 3 \<and> length t2 = 3 \<and>
              list_all2 (\<lambda>s d. \<exists>k. s = points ! k \<and> d = points ! k) t1 t2"
      by auto
    have "t1 = t2" if "(t1, t2) \<in> set new" for t1 t2
    proof -
      from all that have "list_all2 (\<lambda>s d. \<exists>k. s = points ! k \<and> d = points ! k) t1 t2"
        by auto
      then have "list_all2 (=) t1 t2" by (rule list_all2_mono) (metis prod.inject)
      then show ?thesis by (simp add: list.rel_eq)
    qed
    with new show ?thesis by auto
  qed
qed

subsection \<open>Runs of the instances\<close>

lemma swap_demo: "swap_faces demo_vision demo_cv 0 1 demo_world = (Inr 3, demo_result)"
  by code_simp

lemma detect_red:
  "detect_landmarks demo_vision (Some (as_ndarray (heap demo_world ! 0))) =
     Inr (Some (0, 0, 3, 3), Some red_landmarks)"
  by code_simp

lemma detect_blue:
  "detect_landmarks demo_vision (Some (as_ndarray (heap demo_world ! 1))) =
     Inr (Some (0, 0, 3, 3), Some blue_landmarks)"
  by code_simp

lemma detect_small:
  "detect_landmarks demo_vision (Some (as_ndarray (heap demo_world ! 2))) = Inr (None, None)"
  by code_simp

lemma detect_empty:
  "detect_landmarks demo_vision (Some (as_ndarray (heap empty_world ! 0))) = Inl LibError"
  by code_simp

lemma detect_no_face:
  "detect_landmarks demo_vision (Some (as_ndarray (heap empty_world ! 1))) = Inr (None, None)"
  by code_simp

lemma demo_hull_points:
  "hull_points red_landmarks blue_landmarks [0, 1, 2] ([], []) =
     Inr ([(1, 1), (2, 1), (1, 2)], [(0, 0), (2, 0), (0, 2)])"
  by code_simp

lemma load_decodable:
  "load_and_prepare_image decoding_io (Some [7]) empty_disk =
     ((Some (cvt_bgr2rgb [one_pixel_row]), Some 0), \<lparr>files = [0], next_path = 1\<rparr>)"
  by code_simp

lemma load_undecodable:
  "load_and_prepare_image decoding_io (Some []) empty_disk =
     ((None, None), \<lparr>files = [], next_path = 1\<rparr>)"
  by code_simp

section \<open>Theorems\<close>

subsection \<open>C1: no face, no compositing\<close>

text \<open>
  Claim C1. If \<open>detect_landmarks\<close> returns no landmarks for the source image or for the
  destination image, \<open>swap_faces\<close> ends with an exception that reaches its caller:
  the exception of the detection on the source image if that call raises, else the
  exception of the detection on the destination image if that call raises, else
  \<open>ValueError\<close>. The world at that point is the initial one with the copy made by
  \<open>np.copy\<close> added: no call of \<open>warp_triangle\<close> has been recorded, the copy is still
  equal to the destination image, and every array that existed before, the
  destination image among them, is as it was.
\<close>

theorem swap_faces_no_face:
  assumes "a1 < length (heap w)" and "a2 < length (heap w)"
    and "(\<exists>f. detect_landmarks v (Some (as_ndarray (heap w ! a1))) = Inr (f, None))
       \<or> (\<exists>f. detect_landmarks v (Some (as_ndarray (heap w ! a2))) = Inr (f, None))"
  shows "swap_faces v cv a1 a2 w =
           (Inl (case detect_landmarks v (Some (as_ndarray (heap w ! a1))) of
                   Inl e \<Rightarrow> e
                 | Inr r1 \<Rightarrow>
                     (case detect_landmarks v (Some (as_ndarray (heap w ! a2))) of
                        Inl e \<Rightarrow> e
                      | Inr r2 \<Rightarrow> ValueError)),
            w\<lparr>heap := heap w @ [heap w ! a2]\<rparr>)"
proof (cases "detect_landmarks v (Some (as_ndarray (heap w ! a1)))")
  case (Inl e)
  with assms(1,2) show ?thesis
    by (simp add: swap_faces_def Let_def nth_append)
next
  case d1: (Inr r1)
  show ?thesis
  proof (cases "detect_landmarks v (Some (as_ndarray (heap w ! a2)))")
    case (Inl e)
    with d1 assms(1,2) show ?thesis
      by (cases r1) (simp add: swap_faces_def Let_def nth_append)
  next
    case d2: (Inr r2)
    from assms(3) d1 d2 have "snd r1 = None \<or> snd r2 = None" by auto
    with d1 d2 assms(1,2) show ?thesis
      by (cases r1; cases r2)
         (auto simp: swap_faces_def Let_def nth_append split: option.splits)
  qed
qed

theorem swap_faces_no_face_witness:
  "swap_faces demo_vision demo_cv 0 2 demo_world =
     (Inl ValueError,
      \<lparr>heap = [red_image, blue_image, small_image, small_image], warps = []\<rparr>)
   \<and> swap_faces demo_vision demo_cv 0 1 empty_world =
     (Inl LibError, \<lparr>heap = [empty_image, small_image, small_image], warps = []\<rparr>)"
proof -
  have a1: "0 < length (heap demo_world)" and a2: "2 < length (heap demo_world)"
    by (simp_all add: demo_world_def)
  have none: "(\<exists>f. detect_landmarks demo_vision (Some (as_ndarray (heap demo_world ! 0)))
                  = Inr (f, None))
            \<or> (\<exists>f. detect_landmarks demo_vision (Some (as_ndarray (heap demo_world ! 2)))
                  = Inr (f, None))"
    using detect_small by blast
  have first: "swap_faces demo_vision demo_cv 0 2 demo_world =
     (Inl ValueError,
      \<lparr>heap = [red_image, blue_image, small_image, small_image], warps = []\<rparr>)"
    using swap_faces_no_face [OF a1 a2 none, of demo_cv] detect_red detect_small
    by (simp add: demo_world_def)
  have b1: "0 < length (heap empty_world)" and b2: "1 < length (heap empty_world)"
    by (simp_all add: empty_world_def)
  have none': "(\<exists>f. detect_landmarks demo_vision (Some (as_ndarray (heap empty_world ! 0)))
                  = Inr (f, None))
            \<or> (\<exists>f. detect_landmarks demo_vision (Some (as_ndarray (heap empty_world ! 1)))
                  = Inr (f, None))"
    using detect_no_face by blast
  have second: "swap_faces demo_vision demo_cv 0 1 empty_world =
     (Inl LibError, \<lparr>heap = [empty_image, small_image, small_image], warps = []\<rparr>)"
    using swap_faces_no_face [OF b1 b2 none', of demo_cv] detect_empty
    by (simp add: empty_world_def)
  from first second show ?thesis by (rule conjI)
qed

subsection \<open>C4: unresolved triangles are skipped\<close>

text \<open>
  Claim C4. Let \<open>hp1\<close> and \<open>hp2\<close> be the hull point lists that \<open>swap_faces\<close> builds, and
  \<open>t\<close> a triangle of the list with a vertex that is equal to no destination hull point.
  Then the loop does nothing for \<open>t\<close>: it raises no exception, calls no warp and
  leaves the world as it is; and the loop over a triangle list that contains \<open>t\<close>
  ends exactly as the loop over the list without it, so the remaining triangles are
  processed as if \<open>t\<close> had not been there.
\<close>

theorem unresolved_triangle_discarded:
  assumes "hull_points points1 points2 hull2 ([], []) = Inr (hp1, hp2)"
    and "\<not> set (vertices t) \<subseteq> set hp2"
  shows "process_triangles cv a1 out hp1 hp2 [t] w = (None, w)
       \<and> process_triangles cv a1 out hp1 hp2 (ts1 @ t # ts2) w
         = process_triangles cv a1 out hp1 hp2 (ts1 @ ts2) w"
proof -
  from hull_points_map [OF assms(1)] have len: "length hp1 = length hp2" by simp
  from process_triangles_skip [OF len assms(2), of cv a1 out "[]" w]
    process_triangles_append_skip [OF len assms(2)]
  show ?thesis by simp
qed

theorem unresolved_triangle_discarded_witness:
  "process_triangles demo_cv 0 3 [(1, 1), (2, 1), (1, 2)] [(0, 0), (2, 0), (0, 2)]
     [(0, 0, 2, 0, 9, 9)] demo_result = (None, demo_result)
   \<and> process_triangles demo_cv 0 3 [(1, 1), (2, 1), (1, 2)] [(0, 0), (2, 0), (0, 2)]
       [(0, 0, 2, 0, 0, 2), (0, 0, 2, 0, 9, 9)] demo_result
     = process_triangles demo_cv 0 3 [(1, 1), (2, 1), (1, 2)] [(0, 0), (2, 0), (0, 2)]
       [(0, 0, 2, 0, 0, 2)] demo_result"
proof -
  have off: "\<not> set (vertices (0, 0, 2, 0, 9, 9)) \<subseteq> set [(0, 0), (2, 0), (0, 2)]"
    by (simp add: vertices_def)
  show ?thesis
    using unresolved_triangle_discarded [OF demo_hull_points off,
        of demo_cv 0 3 demo_result "[(0, 0, 2, 0, 0, 2)]" "[]"]
    by simp
qed

subsection \<open>C7: source and destination vertices share the landmark index\<close>

text \<open>
  Claim C7. The convex hull is taken once, of the destination landmarks, as a list
  \<open>hull2\<close> of landmark indices. Both hull point lists are built from it with the same
  index at every position: \<open>hp1\<close> is \<open>points1\<close> at the indices of \<open>hull2\<close>, and \<open>hp2\<close> is
  \<open>points2\<close> at the same indices. Every call of \<open>warp_triangle\<close> that \<open>swap_faces\<close> makes
  gets two triangles of three vertices each, and for each position \<open>i\<close> there is a hull
  position \<open>n\<close> such that the \<open>i\<close>-th source vertex is the source landmark and the
  \<open>i\<close>-th destination vertex is the destination landmark of index \<open>hull2 ! n\<close>.
\<close>

theorem swap_faces_correspondence:
  assumes "a1 < length (heap w)" and "a2 < length (heap w)"
    and "detect_landmarks v (Some (as_ndarray (heap w ! a1))) = Inr (f1, Some points1)"
    and "detect_landmarks v (Some (as_ndarray (heap w ! a2))) = Inr (f2, Some points2)"
    and "convexHull cv points2 = Inr hull2"
    and "swap_faces v cv a1 a2 w = (r, w')"
  shows "(\<forall>hp1 hp2. hull_points points1 points2 hull2 ([], []) = Inr (hp1, hp2) \<longrightarrow>
            hp1 = map ((!) points1) hull2 \<and> hp2 = map ((!) points2) hull2)
       \<and> (\<forall>(t1, t2)\<in>set (drop (length (warps w)) (warps w')).
            length t1 = 3 \<and> length t2 = 3 \<and>
            (\<forall>i<3. \<exists>n<length hull2.
               t1 ! i = points1 ! (hull2 ! n) \<and> t2 ! i = points2 ! (hull2 ! n)))"
proof
  show "\<forall>hp1 hp2. hull_points points1 points2 hull2 ([], []) = Inr (hp1, hp2) \<longrightarrow>
            hp1 = map ((!) points1) hull2 \<and> hp2 = map ((!) points2) hull2"
    using hull_points_map [of points1 points2 hull2 "[]" "[]"] by simp
next
  let ?w1 = "w\<lparr>heap := heap w @ [heap w ! a2]\<rparr>"
  let ?P = "\<lambda>t1 t2. length t1 = 3 \<and> length t2 = 3 \<and>
            (\<forall>i<3. \<exists>n<length hull2.
               t1 ! i = points1 ! (hull2 ! n) \<and> t2 ! i = points2 ! (hull2 ! n))"
  from assms(1-4,6)
  have sp: "swap_points cv a1 (length (heap w)) points1 points2 ?w1 = (r, w')"
    by (simp add: swap_faces_def Let_def nth_append)
  show "\<forall>(t1, t2)\<in>set (drop (length (warps w)) (warps w')). ?P t1 t2"
  proof (cases "hull_points points1 points2 hull2 ([], [])")
    case (Inl e)
    with sp assms(5) have "w' = ?w1" by (simp add: swap_points_def)
    then show ?thesis by simp
  next
    case (Inr hp)
    obtain hp1 hp2 where hp: "hp = (hp1, hp2)" by (cases hp)
    with Inr hull_points_map [of points1 points2 hull2 "[]" "[]" hp1 hp2]
    have maps: "hp1 = map ((!) points1) hull2" "hp2 = map ((!) points2) hull2" by simp_all
    then have len: "length hp1 = length hp2" by simp
    have "\<exists>new. warps w' = warps w @ new \<and>
           (\<forall>(t1, t2)\<in>set new. length t1 = 3 \<and> length t2 = 3 \<and>
              list_all2 (\<lambda>s d. \<exists>n<length hp2. s = hp1 ! n \<and> d = hp2 ! n) t1 t2)"
    proof (cases "boundingRect cv hp2")
      case (Inl e)
      with sp assms(5) Inr hp have "w' = ?w1" by (simp add: swap_points_def)
      then show ?thesis by simp
    next
      case br: (Inr rect)
      show ?thesis
      proof (cases "triangleList cv rect hp2")
        case (Inl e)
        with sp assms(5) Inr hp br have "w' = ?w1" by (simp add: swap_points_def)
        then show ?thesis by simp
      next
        case tl: (Inr ts)
        obtain e w2 where pt: "process_triangles cv a1 (length (heap w)) hp1 hp2 ts ?w1 = (e, w2)"
          by (cases "process_triangles cv a1 (length (heap w)) hp1 hp2 ts ?w1")
        with sp assms(5) Inr hp br tl have "w' = w2"
          by (auto simp: swap_points_def split: option.splits)
        with process_triangles_warps [OF len pt] show ?thesis by simp
      qed
    qed
    then obtain new where new: "warps w' = warps w @ new"
      and all: "\<forall>(t1, t2)\<in>set new. length t1 = 3 \<and> length t2 = 3 \<and>
              list_all2 (\<lambda>s d. \<exists>n<length hp2. s = hp1 ! n \<and> d = hp2 ! n) t1 t2"
      by blast
    have "?P t1 t2" if "(t1, t2) \<in> set new" for t1 t2
    proof -
      from all that have l: "length t1 = 3" "length t2 = 3"
        and la: "list_all2 (\<lambda>s d. \<exists>n<length hp2. s = hp1 ! n \<and> d = hp2 ! n) t1 t2"
        by auto
      have "\<exists>n<length hull2. t1 ! i = points1 ! (hull2 ! n) \<and> t2 ! i = points2 ! (hull2 ! n)"
        if "i < 3" for i
      proof -
        from la l that obtain n where "n < length hp2" "t1 ! i = hp1 ! n" "t2 ! i = hp2 ! n"
          by (auto simp: list_all2_conv_all_nth)
        with maps show ?thesis by auto
      qed
      with l show ?thesis by simp
    qed
    with new show ?thesis by auto
  qed
qed

theorem swap_faces_correspondence_witness:
  "warps demo_result = [([(1, 1), (2, 1), (1, 2)], [(0, 0), (2, 0), (0, 2)])]
   \<and> (\<exists>n<3. [(1, 1), (2, 1), (1, 2)] ! 1 = red_landmarks ! ([0, 1, 2] ! n)
            \<and> [(0, 0), (2, 0), (0, 2)] ! 1 = blue_landmarks ! ([0, 1, 2] ! n))"
proof -
  have a1: "0 < length (heap demo_world)" and a2: "1 < length (heap demo_world)"
    by (simp_all add: demo_world_def)
  have hull: "convexHull demo_cv blue_landmarks = Inr [0, 1, 2]"
    by (simp add: demo_cv_def)
  have w: "warps demo_result = [([(1, 1), (2, 1), (1, 2)], [(0, 0), (2, 0), (0, 2)])]"
    by (simp add: demo_result_def)
  have "\<forall>(t1, t2)\<in>set (drop (length (warps demo_world)) (warps demo_result)).
          length t1 = 3 \<and> length t2 = 3 \<and>
          (\<forall>i<3. \<exists>n<length [0, 1, 2 :: nat].
             t1 ! i = red_landmarks ! ([0, 1, 2] ! n) \<and> t2 ! i = blue_landmarks ! ([0, 1, 2] ! n))"
    using swap_faces_correspondence [OF a1 a2 detect_red detect_blue hull swap_demo] by blast
  then have "\<forall>i<3. \<exists>n<length [0, 1, 2 :: nat].
       [(1, 1), (2, 1), (1, 2)] ! i = red_landmarks ! ([0, 1, 2] ! n)
       \<and> [(0, 0), (2, 0), (0, 2)] ! i = blue_landmarks ! ([0, 1, 2] ! n)"
    by (simp add: w demo_world_def)
  then have "\<exists>n<length [0, 1, 2 :: nat].
       [(1, 1), (2, 1), (1, 2)] ! 1 = red_landmarks ! ([0, 1, 2] ! n)
       \<and> [(0, 0), (2, 0), (0, 2)] ! 1 = blue_landmarks ! ([0, 1, 2] ! n)"
    by (elim allE [of _ 1]) simp
  then have "\<exists>n<3. [(1, 1), (2, 1), (1, 2)] ! 1 = red_landmarks ! ([0, 1, 2] ! n)
       \<and> [(0, 0), (2, 0), (0, 2)] ! 1 = blue_landmarks ! ([0, 1, 2] ! n)"
    by (simp only: length_Cons list.size numeral_3_eq_3 One_nat_def add_0)
  with w show ?thesis by (rule conjI)
qed

subsection \<open>C8: the output has the shape of the destination\<close>

text \<open>
  Claim C8. When \<open>swap_faces\<close> returns, the returned array has the height and the width
  of the destination image, row by row. The number of channels is three by the type
  of a pixel, in the input and in the output.
\<close>

theorem swap_faces_same_shape:
  assumes "a2 < length (heap w)"
    and "swap_faces v cv a1 a2 w = (Inr out, w')"
  shows "height (heap w' ! out) = height (heap w ! a2)
       \<and> width (heap w' ! out) = width (heap w ! a2)
       \<and> map length (heap w' ! out) = map length (heap w ! a2)"
proof -
  let ?w1 = "w\<lparr>heap := heap w @ [heap w ! a2]\<rparr>"
  from swap_faces_cases [OF assms(2)] obtain points1 points2 where
    sp: "swap_points cv a1 (length (heap w)) points1 points2 ?w1 = (Inr out, w')"
    by auto
  from swap_points_heap [OF sp]
  have "out = length (heap w)" "map length (heap w' ! length (heap w)) = map length (heap ?w1 ! length (heap w))"
    by auto
  then have "map length (heap w' ! out) = map length (heap w ! a2)" by simp
  then show ?thesis using width_cong height_cong by blast
qed

theorem swap_faces_same_shape_witness:
  "height (heap demo_result ! 3) = height (heap demo_world ! 1)
   \<and> width (heap demo_result ! 3) = width (heap demo_world ! 1)
   \<and> height (heap demo_result ! 3) = 3 \<and> width (heap demo_result ! 3) = 3"
proof -
  have a2: "1 < length (heap demo_world)"
    by (simp add: demo_world_def)
  have "height (heap demo_world ! 1) = 3" "width (heap demo_world ! 1) = 3"
    by (simp_all add: demo_world_def blue_image_def blue_row_def height_def width_def)
  with swap_faces_same_shape [OF a2 swap_demo] show ?thesis by simp
qed

subsection \<open>C10: the two input arrays are never written\<close>

text \<open>
  Claim C10. However \<open>swap_faces\<close> ends, with a result or with an exception, every array
  that existed when it was called is unchanged afterwards: the source image, the
  destination image (also when both are one array), and any other. Exactly one
  array has been allocated, the copy of the destination, and it is the array that
  is returned; all writes of \<open>warp_triangle\<close> go to it.
\<close>

theorem swap_faces_inputs_untouched:
  assumes "swap_faces v cv a1 a2 w = (r, w')"
  shows "(\<forall>a<length (heap w). heap w' ! a = heap w ! a)
       \<and> length (heap w') = Suc (length (heap w))
       \<and> (\<forall>out. r = Inr out \<longrightarrow> out = length (heap w))"
proof -
  let ?w1 = "w\<lparr>heap := heap w @ [heap w ! a2]\<rparr>"
  from swap_faces_cases [OF assms] show ?thesis
  proof
    assume "r \<in> range Inl \<and> w' = ?w1"
    then show ?thesis by (auto simp: nth_append)
  next
    assume "\<exists>points1 points2. swap_points cv a1 (length (heap w)) points1 points2 ?w1 = (r, w')"
    then obtain points1 points2 where
      "swap_points cv a1 (length (heap w)) points1 points2 ?w1 = (r, w')" by blast
    from swap_points_heap [OF this] show ?thesis by (auto simp: nth_append)
  qed
qed

theorem swap_faces_inputs_untouched_witness:
  "heap demo_result ! 0 = heap demo_world ! 0
   \<and> heap demo_result ! 1 = heap demo_world ! 1
   \<and> heap demo_result ! 3 \<noteq> heap demo_world ! 1
   \<and> length (heap demo_result) = Suc (length (heap demo_world))"
proof -
  have "heap demo_result ! 3 \<noteq> heap demo_world ! 1"
    by (simp add: demo_result_def demo_world_def swapped_image_def blue_image_def
        blue_row_def red_row_def red_def blue_def)
  with swap_faces_inputs_untouched [OF swap_demo] show ?thesis
    by (simp add: demo_world_def)
qed

subsection \<open>C5: temporary files of the loader\<close>

text \<open>
  Claim C5 says that every temporary file created by a call of the loader is deleted
  when the call ends. On a successful load this is not so: the file created for
  reference is still there after the call, and its path is what the call returns.
\<close>

theorem load_keeps_reference_file:
  "0 \<notin> set (files empty_disk)
   \<and> snd (fst (load_and_prepare_image decoding_io (Some [7]) empty_disk)) = Some 0
   \<and> 0 \<in> set (files (snd (load_and_prepare_image decoding_io (Some [7]) empty_disk)))"
  by (simp add: load_decodable) (simp add: empty_disk_def)

text \<open>
  Claim C5, amended. A call that creates no temporary file (no upload, or
  \<open>imdecode\<close> raises) leaves the directory as it was. When neither decoder can decode
  the bytes, the temporary file written for the second attempt has been deleted when
  the call returns \<open>(None, "")\<close>: the files are those from before the call. On
  every successful return, exactly one file created by the call remains, the
  reference copy: its path is new and is the path returned to the caller; a file
  written for the second attempt has been deleted.
\<close>

theorem load_temp_files:
  assumes "\<forall>p\<in>set (files d). p < next_path d"
    and "load_and_prepare_image io uploaded_file d = ((res, pth), d')"
  shows "(uploaded_file = None \<or> (\<exists>bytes e. uploaded_file = Some bytes \<and> imdecode io bytes = Inl e)
            \<longrightarrow> res = None \<and> pth = None \<and> d' = d)
       \<and> (\<forall>bytes. uploaded_file = Some bytes \<and> imdecode io bytes = Inr None
              \<and> tmp_write io bytes = Inr () \<and> imread io bytes = Inr None
            \<longrightarrow> res = None \<and> pth = None \<and> files d' = files d)
       \<and> (\<forall>img. res = Some img \<longrightarrow>
            (\<exists>p. pth = Some p \<and> p \<notin> set (files d) \<and> files d' = files d @ [p]))"
proof -
  have fresh: "next_path d \<notin> set (files d)" "Suc (next_path d) \<notin> set (files d)"
    using assms(1) by auto
  show ?thesis
    using assms(2) fresh
    by (auto simp: load_and_prepare_image_def load_body_def fallback_decode_def
        named_temporary_file_def unlink_def
        split: sum.splits option.splits prod.splits)
qed

theorem load_temp_files_witness:
  "load_and_prepare_image decoding_io (Some []) empty_disk =
     ((None, None), \<lparr>files = [], next_path = 1\<rparr>)
   \<and> files \<lparr>files = [], next_path = 1\<rparr> = files empty_disk"
proof -
  have wf: "\<forall>p\<in>set (files empty_disk). p < next_path empty_disk"
    by (simp add: empty_disk_def)
  have undecodable: "imdecode decoding_io [] = Inr None \<and> tmp_write decoding_io [] = Inr ()
      \<and> imread decoding_io [] = Inr None"
    by (simp add: decoding_io_def)
  from load_temp_files [OF wf load_undecodable] undecodable
  have "files \<lparr>files = [], next_path = 1\<rparr> = files empty_disk" by blast
  with load_undecodable show ?thesis by simp
qed

subsection \<open>C9: the first detected face\<close>

text \<open>
  Claim C9. Whenever the detector is reached (the array passes the conversions and
  the format checks, the predictor file exists and loads) and returns the faces
  \<open>faces\<close>, the result of
  \<open>detect_landmarks\<close> is determined by the first face alone: with no face it is
  \<open>(None, None)\<close>, returned and not raised; otherwise it is the first face of the list
  together with the landmarks the predictor computes for that first face, however
  many faces follow it (and \<open>(None, None)\<close> in case the predictor itself raises).
\<close>

theorem detect_landmarks_first_face:
  assumes "to_uint8 v a = Inr u"
    and "to_gray v u = Inr gray"
    and "predictor_file_exists v"
    and "shape_predictor v = Inr predictor"
    and "detector v gray 1 = Inr faces"
  shows "detect_landmarks v (Some a) =
           Inr (case faces of
                  [] \<Rightarrow> (None, None)
                | f # rest \<Rightarrow>
                    (case predictor gray f of
                       Inl e \<Rightarrow> (None, None)
                     | Inr landmarks \<Rightarrow> (Some f, Some landmarks)))"
  using assms
  by (cases faces; cases "predictor gray (hd faces)")
     (simp_all add: detect_landmarks_def detect_body_def)

theorem detect_landmarks_first_face_witness:
  "detect_landmarks two_faces
     (Some \<lparr>nd_dtype = UInt8, nd_shape = [4, 4, 3], nd_data = ()\<rparr>) =
   Inr (Some (5, 6, 7, 8), Some [(5, 6)])"
proof -
  have uint8: "to_uint8 two_faces \<lparr>nd_dtype = UInt8, nd_shape = [4, 4, 3], nd_data = ()\<rparr> =
      Inr \<lparr>nd_dtype = UInt8, nd_shape = [4, 4, 3], nd_data = ()\<rparr>"
    by (simp add: to_uint8_def)
  have gray: "to_gray two_faces \<lparr>nd_dtype = UInt8, nd_shape = [4, 4, 3], nd_data = ()\<rparr> =
      Inr \<lparr>nd_dtype = UInt8, nd_shape = [4, 4], nd_data = ()\<rparr>"
    by (simp add: two_faces_def to_gray_def)
  have there: "predictor_file_exists two_faces"
    by (simp add: two_faces_def)
  have pred: "shape_predictor two_faces = Inr (\<lambda>g (x, y, w, h). Inr [(x, y)])"
    by (simp add: two_faces_def)
  have faces: "detector two_faces \<lparr>nd_dtype = UInt8, nd_shape = [4, 4], nd_data = ()\<rparr> 1
      = Inr [(5, 6, 7, 8), (1, 2, 3, 4)]"
    by (simp add: two_faces_def)
  show ?thesis
    using detect_landmarks_first_face [OF uint8 gray there pred faces] by simp
qed

end
